theory Spec2Isabelle
  imports Main "HOL-Library.Multiset"
begin

section \<open>The RSS feed endpoint of the blog (src/pages/rss.xml.ts)\<close>

text \<open>
  The only program logic of the repository is the handler \<^verbatim>\<open>GET\<close> of
  \<^verbatim>\<open>src/pages/rss.xml.ts\<close>: it reads the collection \<^verbatim>\<open>"blog"\<close> with a
  filter on the draft flag, sorts the array with a comparator on the publication
  dates, maps every post to a feed item and hands the options object to the
  serializer \<^verbatim>\<open>rss\<close>. The content store (\<^verbatim>\<open>getCollection\<close>) and the serializer
  (\<^verbatim>\<open>rss\<close>) belong to the framework; the result of the model is the options object
  the handler builds, which is the FeedDocument of the specification.
\<close>

subsection \<open>Data\<close>

text \<open>
  Modelled from the spec: the content schema of the collection (the repository's
  \<^verbatim>\<open>src/content/config.ts\<close>) is not among the sources. The fields are the ones
  the handler and the front matter of the posts use. A publication date that is
  there is a valid \<^verbatim>\<open>Date\<close>, and \<^verbatim>\<open>valueOf()\<close> is its integer number of
  milliseconds since the epoch; \<open>None\<close> is a field that is absent
  (\<^verbatim>\<open>undefined\<close>). The draft flag may be absent as well, which is why the
  handler tests \<^verbatim>\<open>!== true\<close>.
\<close>

record post_data =
  title :: string
  description :: string
  pubDate :: "int option"
  updatedDate :: "int option"
  tags :: "string list"
  draft :: "bool option"

record post =
  slug :: string
  body :: string
  data :: post_data

text \<open>
  The content store holds the collection \<^verbatim>\<open>"blog"\<close> in the order in which the
  framework provides it; further collections live in the extension slot of the
  record.
\<close>

record content_store =
  blog :: "post list"

text \<open>
  Of the \<^verbatim>\<open>APIContext\<close> the handler reads \<^verbatim>\<open>context.site\<close> only
  (\<^verbatim>\<open>URL | undefined\<close>, here the text of the URL); the request, the parameters
  and the other fields of the context live in the extension slot.
\<close>

record api_context =
  site :: "string option"

text \<open>The item objects and the options object passed to \<^verbatim>\<open>rss\<close>.\<close>

record rss_item =
  item_title :: string
  item_description :: string
  item_pubDate :: "int option"
  link :: string
  categories :: "string list"

record rss_options =
  feed_title :: string
  feed_description :: string
  feed_site :: string
  items :: "rss_item list"
  customData :: string

text \<open>
  The handler raises no error of its own. The one exception its own code can
  throw is the \<^verbatim>\<open>TypeError\<close> of calling \<^verbatim>\<open>valueOf\<close> on \<^verbatim>\<open>undefined\<close>
  inside the comparator.
\<close>

datatype js_error = TypeError

subsection \<open>Operations\<close>

text \<open>
  \<^verbatim>\<open>getCollection(name, filter)\<close>: the entries of the named collection that the
  filter accepts, in the order of the store, as a fresh array.
\<close>

definition getCollection :: "'s \<Rightarrow> ('s \<Rightarrow> 'e list) \<Rightarrow> ('e \<Rightarrow> bool) \<Rightarrow> 'e list" where
  "getCollection store name f = filter f (name store)"

text \<open>
  The comparator \<^verbatim>\<open>(a, b) => b.data.pubDate.valueOf() - a.data.pubDate.valueOf()\<close>.
  The left operand is evaluated first. Both time values are integers of magnitude
  at most 8.64e15, so the rounding of the floating-point subtraction keeps the
  sign of the exact difference, and the sort reads the sign only.
\<close>

definition compare_posts :: "post \<Rightarrow> post \<Rightarrow> js_error + int" where
  "compare_posts a b =
     (case pubDate (data b) of
        None \<Rightarrow> Inl TypeError
      | Some vb \<Rightarrow>
          (case pubDate (data a) of
             None \<Rightarrow> Inl TypeError
           | Some va \<Rightarrow> Inr (vb - va)))"

text \<open>
  \<^verbatim>\<open>Array.prototype.sort(comparefn)\<close>. ECMAScript requires the sort to be stable
  and leaves the sequence of comparator calls to the engine; an exception of the
  comparator ends the sort. The model is the stable insertion sort: an element
  goes in front of the first later element that it does not have to follow
  (\<^verbatim>\<open>comparefn(x, y) <= 0\<close>). An array of fewer than two elements is returned
  without a call of the comparator, as the engines do.
\<close>

fun insert_cmp :: "('a \<Rightarrow> 'a \<Rightarrow> js_error + int) \<Rightarrow> 'a \<Rightarrow> 'a list \<Rightarrow> js_error + 'a list" where
  "insert_cmp cmp x [] = Inr [x]"
| "insert_cmp cmp x (y # ys) =
     (case cmp x y of
        Inl e \<Rightarrow> Inl e
      | Inr c \<Rightarrow>
          if c \<le> 0 then Inr (x # y # ys)
          else (case insert_cmp cmp x ys of
                  Inl e \<Rightarrow> Inl e
                | Inr zs \<Rightarrow> Inr (y # zs)))"

fun sort_cmp :: "('a \<Rightarrow> 'a \<Rightarrow> js_error + int) \<Rightarrow> 'a list \<Rightarrow> js_error + 'a list" where
  "sort_cmp cmp [] = Inr []"
| "sort_cmp cmp (x # xs) =
     (case sort_cmp cmp xs of
        Inl e \<Rightarrow> Inl e
      | Inr ys \<Rightarrow> insert_cmp cmp x ys)"

text \<open>The filter callback \<^verbatim>\<open>({ data }) => data.draft !== true\<close>.\<close>

definition not_draft :: "post \<Rightarrow> bool" where
  "not_draft entry = (draft (data entry) \<noteq> Some True)"

text \<open>The callback of \<^verbatim>\<open>sortedPosts.map\<close>: one item object per post.\<close>

definition feed_item :: "post \<Rightarrow> rss_item" where
  "feed_item p =
     \<lparr> item_title = title (data p),
       item_description = description (data p),
       item_pubDate = pubDate (data p),
       link = ''/blog/'' @ slug p @ ''/'',
       categories = tags (data p) \<rparr>"

text \<open>
  \<^verbatim>\<open>context.site || "https://blog.l3s.me"\<close>: the right operand is taken when
  the left one is falsy, that is \<^verbatim>\<open>undefined\<close> or the empty string.
\<close>

definition site_or_default :: "string option \<Rightarrow> string" where
  "site_or_default s =
     (case s of
        None \<Rightarrow> ''https://blog.l3s.me''
      | Some u \<Rightarrow> if u = [] then ''https://blog.l3s.me'' else u)"

text \<open>The first two statements of the handler: the filtered, sorted posts.\<close>

definition sortedPosts :: "'s content_store_scheme \<Rightarrow> js_error + post list" where
  "sortedPosts store = sort_cmp compare_posts (getCollection store blog not_draft)"

text \<open>The handler: \<open>Inr\<close> of the options object passed to \<^verbatim>\<open>rss\<close>, or the exception.\<close>

definition GET :: "'s content_store_scheme \<Rightarrow> 'c api_context_scheme \<Rightarrow> js_error + rss_options" where
  "GET store context =
     (case sortedPosts store of
        Inl e \<Rightarrow> Inl e
      | Inr posts \<Rightarrow>
          Inr \<lparr> feed_title = ''Lucas William Bateson - Blog'',
                feed_description =
                  ''Personal blog and project log - thoughts on development, technology, and building things.'',
                feed_site = site_or_default (site context),
                items = map feed_item posts,
                customData = ''<language>en-us</language>'' \<rparr>)"

subsection \<open>Auxiliary notions\<close>

text \<open>
  The options object of the handler, written once more as a function of the site
  and of the sorted posts, to state results of \<open>GET\<close> briefly.
\<close>

definition feed_document :: "string \<Rightarrow> post list \<Rightarrow> rss_options" where
  "feed_document url ps =
     \<lparr> feed_title = ''Lucas William Bateson - Blog'',
       feed_description =
         ''Personal blog and project log - thoughts on development, technology, and building things.'',
       feed_site = url,
       items = map feed_item ps,
       customData = ''<language>en-us</language>'' \<rparr>"

text \<open>
  A post is dated when its publication date is there. On dated posts the
  comparator orders by the negated time value.
\<close>

definition dated :: "post \<Rightarrow> bool" where
  "dated p = (pubDate (data p) \<noteq> None)"

definition neg_time :: "post \<Rightarrow> int" where
  "neg_time p = - the (pubDate (data p))"

subsection \<open>Example inputs\<close>

text \<open>
  The posts of the specification's scenarios: A of 2025-01-01, B of 2025-03-01,
  the draft C of 2025-02-01, and Y, which shares the date of A and follows it in
  the store. The post U has neither a publication date nor a draft flag.
\<close>

definition post_A :: post where
  "post_A = \<lparr> slug = ''a'', body = ''text of A'',
              data = \<lparr> title = ''A'', description = ''first'',
                       pubDate = Some 1735689600000, updatedDate = None,
                       tags = [''Rust''], draft = Some False \<rparr> \<rparr>"

definition post_B :: post where
  "post_B = \<lparr> slug = ''b'', body = ''text of B'',
              data = \<lparr> title = ''B'', description = ''second'',
                       pubDate = Some 1740787200000, updatedDate = Some 1740873600000,
                       tags = [''Physics'', ''Simulation''], draft = None \<rparr> \<rparr>"

definition post_C :: post where
  "post_C = \<lparr> slug = ''c'', body = ''text of C'',
              data = \<lparr> title = ''C'', description = ''third'',
                       pubDate = Some 1738368000000, updatedDate = None,
                       tags = [], draft = Some True \<rparr> \<rparr>"

definition post_Y :: post where
  "post_Y = \<lparr> slug = ''y'', body = ''text of Y'',
              data = \<lparr> title = ''Y'', description = ''fourth'',
                       pubDate = Some 1735689600000, updatedDate = None,
                       tags = [''AI''], draft = Some False \<rparr> \<rparr>"

definition post_U :: post where
  "post_U = \<lparr> slug = ''u'', body = ''text of U'',
              data = \<lparr> title = ''U'', description = ''undated'',
                       pubDate = None, updatedDate = None,
                       tags = [], draft = None \<rparr> \<rparr>"

definition example_store :: content_store where
  "example_store = \<lparr> blog = [post_A, post_B, post_C, post_Y] \<rparr>"

lemmas example_defs =
  post_A_def post_B_def post_C_def post_Y_def post_U_def example_store_def

lemmas handler_defs =
  GET_def sortedPosts_def getCollection_def not_draft_def compare_posts_def feed_item_def
  site_or_default_def feed_document_def

subsection \<open>Lemmas on the sort\<close>

text \<open>
  Where every post is dated the comparator never throws, and the sort is the
  library's stable insertion sort on the negated time value. Where two or more
  posts are sorted and one of them is not dated, the comparator is called on it
  and the sort ends with its exception.
\<close>

lemma compare_posts_dated:
  "dated a \<Longrightarrow> dated b \<Longrightarrow> compare_posts a b = Inr (neg_time a - neg_time b)"
  by (auto simp: compare_posts_def dated_def neg_time_def)

lemma compare_posts_undated:
  "\<not> dated a \<or> \<not> dated b \<Longrightarrow> compare_posts a b = Inl TypeError"
  by (auto simp: compare_posts_def dated_def split: option.splits)

lemma insert_cmp_dated:
  "dated x \<Longrightarrow> \<forall>y\<in>set ys. dated y \<Longrightarrow>
   insert_cmp compare_posts x ys = Inr (insort_key neg_time x ys)"
  by (induction ys) (auto simp: compare_posts_dated)

lemma sort_cmp_dated:
  "\<forall>p\<in>set ps. dated p \<Longrightarrow> sort_cmp compare_posts ps = Inr (sort_key neg_time ps)"
  by (induction ps) (auto simp: insert_cmp_dated)

lemma insert_cmp_undated:
  "\<not> dated x \<or> \<not> dated y \<Longrightarrow> insert_cmp compare_posts x (y # ys) = Inl TypeError"
  by (simp add: compare_posts_undated)

lemma insert_cmp_mset:
  "insert_cmp cmp x ys = Inr zs \<Longrightarrow> mset zs = add_mset x (mset ys)"
  by (induction ys arbitrary: zs) (auto split: sum.splits if_splits)

lemma sort_cmp_mset:
  "sort_cmp cmp ps = Inr qs \<Longrightarrow> mset qs = mset ps"
  by (induction ps arbitrary: qs) (auto split: sum.splits dest: insert_cmp_mset)

lemma sort_cmp_length:
  "sort_cmp cmp ps = Inr qs \<Longrightarrow> length qs = length ps"
  using sort_cmp_mset [of cmp ps qs] by (metis size_mset)

lemma sort_cmp_set:
  "sort_cmp cmp ps = Inr qs \<Longrightarrow> set qs = set ps"
  using sort_cmp_mset [of cmp ps qs] by (metis set_mset_mset)

lemma sort_cmp_undated:
  "2 \<le> length ps \<Longrightarrow> \<exists>p\<in>set ps. \<not> dated p \<Longrightarrow> sort_cmp compare_posts ps = Inl TypeError"
proof (induction ps)
  case Nil
  then show ?case by simp
next
  case (Cons p rest)
  show ?case
  proof (cases "sort_cmp compare_posts rest")
    case (Inl e)
    then show ?thesis by (cases e) simp
  next
    case (Inr qs)
    from Cons.prems(1) obtain r rs where rest: "rest = r # rs"
      by (cases rest) auto
    have "insert_cmp compare_posts p qs = Inl TypeError"
    proof (cases "\<forall>q\<in>set rest. dated q")
      case True
      with Cons.prems(2) have "\<not> dated p" by auto
      moreover from rest obtain y ys where "qs = y # ys"
        using sort_cmp_length [OF Inr] by (cases qs) auto
      ultimately show ?thesis by (simp add: compare_posts_undated)
    next
      case False
      with Cons.IH Inr have "\<not> 2 \<le> length rest" by auto
      with rest have single: "rest = [r]" by (cases rs) auto
      with Inr have "qs = [r]" by simp
      moreover from False single have "\<not> dated r" by simp
      ultimately show ?thesis by (simp add: compare_posts_undated)
    qed
    with Inr show ?thesis by simp
  qed
qed

subsection \<open>Lemmas on the handler\<close>

lemma sort_key_short: "length ps < 2 \<Longrightarrow> sort_key f ps = ps"
  by (cases ps) (auto simp: sort_key_def)

lemma sort_cmp_short: "length ps < 2 \<Longrightarrow> sort_cmp cmp ps = Inr ps"
  by (cases ps) auto

lemma sort_cmp_Inr:
  assumes "sort_cmp compare_posts ps = Inr qs"
  shows "qs = sort_key neg_time ps" and "2 \<le> length ps \<longrightarrow> (\<forall>p\<in>set ps. dated p)"
proof -
  show all: "2 \<le> length ps \<longrightarrow> (\<forall>p\<in>set ps. dated p)"
    using assms sort_cmp_undated [of ps] by auto
  show "qs = sort_key neg_time ps"
  proof (cases "2 \<le> length ps")
    case True
    with all have "\<forall>p\<in>set ps. dated p" by simp
    with assms show ?thesis by (simp add: sort_cmp_dated)
  next
    case False
    then have "length ps < 2" by simp
    with assms show ?thesis by (simp add: sort_cmp_short sort_key_short)
  qed
qed

lemma sortedPosts_Inr:
  assumes "sortedPosts s = Inr ps"
  shows "ps = sort_key neg_time (filter not_draft (blog s))"
    and "2 \<le> length ps \<longrightarrow> (\<forall>p\<in>set ps. dated p)"
proof -
  from assms have run: "sort_cmp compare_posts (filter not_draft (blog s)) = Inr ps"
    by (simp add: sortedPosts_def getCollection_def)
  from sort_cmp_Inr(1) [OF run] show eq: "ps = sort_key neg_time (filter not_draft (blog s))" .
  from sort_cmp_Inr(2) [OF run] eq show "2 \<le> length ps \<longrightarrow> (\<forall>p\<in>set ps. dated p)"
    by simp
qed

lemma GET_InrD:
  "GET s c = Inr d \<Longrightarrow>
   \<exists>ps. sortedPosts s = Inr ps \<and> d = feed_document (site_or_default (site c)) ps"
  by (auto simp: GET_def feed_document_def split: sum.splits)

lemma GET_dated:
  "\<forall>p\<in>set (blog s). not_draft p \<longrightarrow> dated p \<Longrightarrow>
   GET s c = Inr (feed_document (site_or_default (site c))
                    (sort_key neg_time (filter not_draft (blog s))))"
  by (simp add: GET_def sortedPosts_def getCollection_def sort_cmp_dated feed_document_def)

section \<open>The claims\<close>

subsection \<open>C1: a missing site\<close>

text \<open>
  C1, as stated: with the site missing or empty the call fails with a
  ConfigurationError and returns no document. The handler has no such failure:
  \<^verbatim>\<open>context.site || "https://blog.l3s.me"\<close> puts the fixed URL in the place of
  a missing or empty site, and the whole document is returned. Here the store of
  the scenario is read without a site and with the empty site.
\<close>

theorem GET_missing_site_counterexample:
  "GET example_store \<lparr> site = None \<rparr>
     = Inr (feed_document ''https://blog.l3s.me'' [post_B, post_A, post_Y])
   \<and> GET example_store \<lparr> site = Some [] \<rparr>
     = Inr (feed_document ''https://blog.l3s.me'' [post_B, post_A, post_Y])"
  by (simp add: handler_defs example_defs)

text \<open>
  C1, amended: with the site missing or empty the call does not fail on that
  account. It behaves exactly as the call with the site
  \<^verbatim>\<open>https://blog.l3s.me\<close>, and where every retained post has its publication
  date it returns a document with that site.
\<close>

theorem GET_site_fallback:
  assumes "site c = None \<or> site c = Some []"
  shows "GET s c = GET s (c\<lparr>site := Some ''https://blog.l3s.me''\<rparr>)
         \<and> ((\<forall>p\<in>set (blog s). draft (data p) \<noteq> Some True \<longrightarrow> pubDate (data p) \<noteq> None)
            \<longrightarrow> (\<exists>d. GET s c = Inr d \<and> feed_site d = ''https://blog.l3s.me''))"
proof
  from assms have fallback: "site_or_default (site c) = ''https://blog.l3s.me''"
    by (auto simp: site_or_default_def)
  have given: "site_or_default (Some ''https://blog.l3s.me'') = ''https://blog.l3s.me''"
    by (simp add: site_or_default_def)
  from fallback given show "GET s c = GET s (c\<lparr>site := Some ''https://blog.l3s.me''\<rparr>)"
    by (simp add: GET_def split: sum.splits)
  show "(\<forall>p\<in>set (blog s). draft (data p) \<noteq> Some True \<longrightarrow> pubDate (data p) \<noteq> None)
        \<longrightarrow> (\<exists>d. GET s c = Inr d \<and> feed_site d = ''https://blog.l3s.me'')"
  proof
    assume "\<forall>p\<in>set (blog s). draft (data p) \<noteq> Some True \<longrightarrow> pubDate (data p) \<noteq> None"
    then have "\<forall>p\<in>set (blog s). not_draft p \<longrightarrow> dated p"
      by (simp add: not_draft_def dated_def)
    from GET_dated [OF this, of c] fallback
    show "\<exists>d. GET s c = Inr d \<and> feed_site d = ''https://blog.l3s.me''"
      by (simp add: feed_document_def)
  qed
qed

theorem GET_site_fallback_witness:
  "site \<lparr> site = None \<rparr> = None
   \<and> GET example_store \<lparr> site = None \<rparr>
       = GET example_store \<lparr> site = Some ''https://blog.l3s.me'' \<rparr>
   \<and> feed_site (projr (GET example_store \<lparr> site = None \<rparr>)) = ''https://blog.l3s.me''"
proof -
  have h: "site \<lparr> site = None \<rparr> = None \<or> site \<lparr> site = None \<rparr> = Some []"
    by simp
  have all: "\<forall>p\<in>set (blog example_store).
               draft (data p) \<noteq> Some True \<longrightarrow> pubDate (data p) \<noteq> None"
    by (simp add: example_defs)
  from GET_site_fallback [OF h, of example_store]
  have one: "GET example_store \<lparr> site = None \<rparr>
               = GET example_store \<lparr> site = Some ''https://blog.l3s.me'' \<rparr>"
    by simp
  from GET_site_fallback [OF h, of example_store] all
  obtain d where run: "GET example_store \<lparr> site = None \<rparr> = Inr d"
    and url: "feed_site d = ''https://blog.l3s.me''"
    by blast
  from run have "projr (GET example_store \<lparr> site = None \<rparr>) = d"
    by simp
  with url have "feed_site (projr (GET example_store \<lparr> site = None \<rparr>)) = ''https://blog.l3s.me''"
    by simp
  with one show ?thesis by simp
qed

subsection \<open>C2: a retained post without a publication date\<close>

text \<open>
  C2, as stated: a retained post that lacks its publication date makes the whole
  call fail with a DataError. The handler checks no field and has no DataError;
  the date is read by the comparator of the sort only. A single retained post is
  never compared, so the store that holds the undated post U alone (and a draft)
  yields a document with the item of U, its date absent.
\<close>

theorem GET_undated_single_counterexample:
  "GET \<lparr> blog = [post_C, post_U] \<rparr> \<lparr> site = Some ''https://blog.l3s.me'' \<rparr>
     = Inr \<lparr> feed_title = ''Lucas William Bateson - Blog'',
             feed_description =
               ''Personal blog and project log - thoughts on development, technology, and building things.'',
             feed_site = ''https://blog.l3s.me'',
             items = [\<lparr> item_title = ''U'', item_description = ''undated'',
                        item_pubDate = None, link = ''/blog/u/'', categories = [] \<rparr>],
             customData = ''<language>en-us</language>'' \<rparr>"
  by (simp add: handler_defs example_defs)

text \<open>
  C2, amended: where two or more posts are retained and one of them lacks its
  publication date, the whole call fails, with the TypeError that the comparator
  of the sort throws; no document is returned.
\<close>

theorem GET_undated_fails:
  assumes "2 \<le> length (filter (\<lambda>p. draft (data p) \<noteq> Some True) (blog s))"
    and "p \<in> set (blog s)"
    and "draft (data p) \<noteq> Some True"
    and "pubDate (data p) = None"
  shows "GET s c = Inl TypeError"
proof -
  have keep: "(\<lambda>p. draft (data p) \<noteq> Some True) = not_draft"
    by (simp add: not_draft_def fun_eq_iff)
  from assms(2-4) have "\<exists>q\<in>set (filter not_draft (blog s)). \<not> dated q"
    by (auto simp: not_draft_def dated_def)
  with assms(1) have "sort_cmp compare_posts (filter not_draft (blog s)) = Inl TypeError"
    unfolding keep by (rule sort_cmp_undated)
  then show ?thesis
    by (simp add: GET_def sortedPosts_def getCollection_def)
qed

theorem GET_undated_fails_witness:
  "GET \<lparr> blog = [post_A, post_C, post_U, post_B] \<rparr> \<lparr> site = None \<rparr> = Inl TypeError"
proof -
  have "2 \<le> length (filter (\<lambda>p. draft (data p) \<noteq> Some True)
                       (blog \<lparr> blog = [post_A, post_C, post_U, post_B] \<rparr>))"
    by (simp add: example_defs)
  moreover have "post_U \<in> set (blog \<lparr> blog = [post_A, post_C, post_U, post_B] \<rparr>)"
    by simp
  moreover have "draft (data post_U) \<noteq> Some True" and "pubDate (data post_U) = None"
    by (simp_all add: example_defs)
  ultimately show ?thesis
    by (rule GET_undated_fails)
qed

subsection \<open>C3: drafts\<close>

text \<open>
  C3: no entry of the output comes from a draft. Whenever the handler returns,
  its items are the projections of the posts of \<^verbatim>\<open>sortedPosts\<close>, which are
  taken from the store (each at most as often as it is there) and none of which
  has the draft flag \<^verbatim>\<open>true\<close>.
\<close>

theorem GET_excludes_drafts:
  "GET s c = Inr d \<Longrightarrow>
   \<exists>ps. sortedPosts s = Inr ps \<and> items d = map feed_item ps
        \<and> mset ps \<subseteq># mset (blog s) \<and> (\<forall>p\<in>set ps. draft (data p) \<noteq> Some True)"
proof -
  assume "GET s c = Inr d"
  then obtain ps where sp: "sortedPosts s = Inr ps"
    and d: "d = feed_document (site_or_default (site c)) ps"
    using GET_InrD by blast
  from sp have perm: "mset ps = mset (filter not_draft (blog s))"
    by (simp add: sortedPosts_def getCollection_def sort_cmp_mset)
  then have "mset ps \<subseteq># mset (blog s)"
    by simp
  moreover from perm have "set ps = set (filter not_draft (blog s))"
    by (rule mset_eq_setD)
  then have "\<forall>p\<in>set ps. draft (data p) \<noteq> Some True"
    by (simp add: not_draft_def)
  moreover note d sp
  ultimately show ?thesis
    by (auto simp: feed_document_def)
qed

theorem GET_excludes_drafts_witness:
  "GET example_store \<lparr> site = None \<rparr>
     = Inr (feed_document ''https://blog.l3s.me'' [post_B, post_A, post_Y])
   \<and> (\<exists>ps. sortedPosts example_store = Inr ps
           \<and> map feed_item [post_B, post_A, post_Y] = map feed_item ps
           \<and> mset ps \<subseteq># mset [post_A, post_B, post_C, post_Y]
           \<and> list_all (\<lambda>p. draft (data p) \<noteq> Some True) ps)"
proof -
  have run: "GET example_store \<lparr> site = None \<rparr>
               = Inr (feed_document ''https://blog.l3s.me'' [post_B, post_A, post_Y])"
    by (simp add: handler_defs example_defs)
  from GET_excludes_drafts [OF run] show ?thesis
    using run by (simp add: feed_document_def example_store_def list_all_iff)
qed

subsection \<open>C4: the order of the entries\<close>

text \<open>
  C4: the entries are in descending order of publication date. Whenever the
  handler returns, any entry that precedes another one carries a publication
  date that is at least the date of the later entry (and both dates are there).
\<close>

theorem GET_items_descending:
  assumes "GET s c = Inr d" and "i < j" and "j < length (items d)"
  shows "\<exists>v1 v2. item_pubDate (items d ! i) = Some v1
                 \<and> item_pubDate (items d ! j) = Some v2 \<and> v2 \<le> v1"
proof -
  from assms(1) obtain ps where sp: "sortedPosts s = Inr ps"
    and d: "d = feed_document (site_or_default (site c)) ps"
    using GET_InrD by blast
  from d assms(3) have j: "j < length ps"
    by (simp add: feed_document_def)
  with assms(2) have i: "i < length ps" and two: "2 \<le> length ps"
    by simp_all
  from sortedPosts_Inr(2) [OF sp] two have all: "\<forall>p\<in>set ps. dated p"
    by simp
  from i j all have "dated (ps ! i)" and "dated (ps ! j)"
    by simp_all
  then obtain v1 v2 where v1: "pubDate (data (ps ! i)) = Some v1"
    and v2: "pubDate (data (ps ! j)) = Some v2"
    by (auto simp: dated_def)
  have "sorted (map neg_time ps)"
    using sortedPosts_Inr(1) [OF sp] by simp
  with assms(2) i j have "map neg_time ps ! i \<le> map neg_time ps ! j"
    by (simp add: sorted_iff_nth_mono del: nth_map)
  with i j v1 v2 have "v2 \<le> v1"
    by (simp add: neg_time_def)
  with i j v1 v2 d show ?thesis
    by (simp add: feed_document_def feed_item_def)
qed

theorem GET_items_descending_witness:
  "GET example_store \<lparr> site = None \<rparr>
     = Inr (feed_document ''https://blog.l3s.me'' [post_B, post_A, post_Y])
   \<and> item_pubDate (feed_item post_B) = Some 1740787200000
   \<and> item_pubDate (feed_item post_Y) = Some 1735689600000
   \<and> (1735689600000::int) \<le> 1740787200000"
proof -
  have run: "GET example_store \<lparr> site = None \<rparr>
               = Inr (feed_document ''https://blog.l3s.me'' [post_B, post_A, post_Y])"
    by (simp add: handler_defs example_defs)
  have "(0::nat) < 2"
    and "2 < length (items (feed_document ''https://blog.l3s.me'' [post_B, post_A, post_Y]))"
    by (simp_all add: feed_document_def)
  from GET_items_descending [OF run this] run show ?thesis
    by (simp add: feed_document_def feed_item_def example_defs)
qed

subsection \<open>C5: posts of one date\<close>

text \<open>
  C5: the sort is stable. Whenever the handler returns, its items are the
  projections of the posts of \<^verbatim>\<open>sortedPosts\<close>, and there, for every
  publication date, the posts of that date stand in the same order as the
  retained posts of that date stand in the store. The result is a function of
  the store, so a repeated call with the same input gives the same order.
\<close>

theorem GET_sort_stable:
  assumes "GET s c = Inr d"
  shows "\<exists>ps. sortedPosts s = Inr ps \<and> items d = map feed_item ps
              \<and> (\<forall>v. filter (\<lambda>p. pubDate (data p) = v) ps
                      = filter (\<lambda>p. pubDate (data p) = v)
                          (filter (\<lambda>p. draft (data p) \<noteq> Some True) (blog s)))"
proof -
  let ?kept = "filter not_draft (blog s)"
  have keep: "(\<lambda>p. draft (data p) \<noteq> Some True) = not_draft"
    by (simp add: not_draft_def fun_eq_iff)
  from assms obtain ps where sp: "sortedPosts s = Inr ps"
    and d: "d = feed_document (site_or_default (site c)) ps"
    using GET_InrD by blast
  note ps = sortedPosts_Inr(1) [OF sp]
  have "filter (\<lambda>p. pubDate (data p) = v) ps = filter (\<lambda>p. pubDate (data p) = v) ?kept" for v
  proof (cases "2 \<le> length ps")
    case False
    with ps have "length ?kept < 2" by simp
    with ps show ?thesis by (simp add: sort_key_short)
  next
    case True
    with sortedPosts_Inr(2) [OF sp] have all: "\<forall>p\<in>set ps. dated p"
      by simp
    with ps have all': "\<forall>p\<in>set ?kept. dated p"
      by simp
    show ?thesis
    proof (cases v)
      case None
      with all all' have "filter (\<lambda>p. pubDate (data p) = v) ps = []"
        and "filter (\<lambda>p. pubDate (data p) = v) ?kept = []"
        by (auto simp: dated_def filter_empty_conv)
      then show ?thesis by simp
    next
      case (Some t)
      from all have "filter (\<lambda>p. pubDate (data p) = v) ps = filter (\<lambda>p. neg_time p = - t) ps"
        by (intro filter_cong) (auto simp: Some dated_def neg_time_def)
      also have "\<dots> = filter (\<lambda>p. neg_time p = - t) ?kept"
        unfolding ps by (rule sort_key_stable)
      also from all' have "\<dots> = filter (\<lambda>p. pubDate (data p) = v) ?kept"
        by (intro filter_cong) (auto simp: Some dated_def neg_time_def)
      finally show ?thesis .
    qed
  qed
  with d sp show ?thesis
    unfolding keep by (auto simp: feed_document_def)
qed

theorem GET_sort_stable_witness:
  "GET example_store \<lparr> site = None \<rparr>
     = Inr (feed_document ''https://blog.l3s.me'' [post_B, post_A, post_Y])
   \<and> filter (\<lambda>p. pubDate (data p) = Some 1735689600000) [post_B, post_A, post_Y]
       = [post_A, post_Y]
   \<and> (\<exists>ps. sortedPosts example_store = Inr ps
           \<and> map feed_item [post_B, post_A, post_Y] = map feed_item ps
           \<and> filter (\<lambda>p. pubDate (data p) = Some 1735689600000) ps = [post_A, post_Y])"
proof -
  have run: "GET example_store \<lparr> site = None \<rparr>
               = Inr (feed_document ''https://blog.l3s.me'' [post_B, post_A, post_Y])"
    by (simp add: handler_defs example_defs)
  have here: "filter (\<lambda>p. pubDate (data p) = Some 1735689600000) [post_B, post_A, post_Y]
                = [post_A, post_Y]"
    by (simp add: example_defs)
  have store: "filter (\<lambda>p. pubDate (data p) = Some 1735689600000)
                 (filter (\<lambda>p. draft (data p) \<noteq> Some True) (blog example_store))
                = [post_A, post_Y]"
    by (simp add: example_defs)
  from GET_sort_stable [OF run] obtain ps
    where "sortedPosts example_store = Inr ps"
      and "items (feed_document ''https://blog.l3s.me'' [post_B, post_A, post_Y]) = map feed_item ps"
      and "filter (\<lambda>p. pubDate (data p) = Some 1735689600000) ps
             = filter (\<lambda>p. pubDate (data p) = Some 1735689600000)
                 (filter (\<lambda>p. draft (data p) \<noteq> Some True) (blog example_store))"
    by blast
  with store have "\<exists>ps. sortedPosts example_store = Inr ps
           \<and> map feed_item [post_B, post_A, post_Y] = map feed_item ps
           \<and> filter (\<lambda>p. pubDate (data p) = Some 1735689600000) ps = [post_A, post_Y]"
    by (auto simp: feed_document_def)
  with run here show ?thesis by simp
qed

subsection \<open>C6: the projection\<close>

text \<open>
  C6: every item is the projection of the post at the same place of
  \<^verbatim>\<open>sortedPosts\<close>: title, description and publication date are those of the
  post, the link is \<^verbatim>\<open>/blog/\<close>, the slug and \<^verbatim>\<open>/\<close>, and the categories are
  the tags.
\<close>

theorem GET_items_projection:
  assumes "GET s c = Inr d"
  shows "\<exists>ps. sortedPosts s = Inr ps \<and> length (items d) = length ps
              \<and> (\<forall>i<length ps.
                    item_title (items d ! i) = title (data (ps ! i))
                    \<and> item_description (items d ! i) = description (data (ps ! i))
                    \<and> item_pubDate (items d ! i) = pubDate (data (ps ! i))
                    \<and> link (items d ! i) = ''/blog/'' @ slug (ps ! i) @ ''/''
                    \<and> categories (items d ! i) = tags (data (ps ! i)))"
proof -
  from assms obtain ps where sp: "sortedPosts s = Inr ps"
    and d: "d = feed_document (site_or_default (site c)) ps"
    using GET_InrD by blast
  from d have "items d = map feed_item ps"
    by (simp add: feed_document_def)
  with sp show ?thesis
    by (auto simp: feed_item_def)
qed

theorem GET_items_projection_witness:
  "GET \<lparr> blog = [post_A] \<rparr> \<lparr> site = None \<rparr>
     = Inr (feed_document ''https://blog.l3s.me'' [post_A])
   \<and> sortedPosts \<lparr> blog = [post_A] \<rparr> = Inr [post_A]
   \<and> item_title (items (feed_document ''https://blog.l3s.me'' [post_A]) ! 0) = ''A''
   \<and> item_description (items (feed_document ''https://blog.l3s.me'' [post_A]) ! 0) = ''first''
   \<and> item_pubDate (items (feed_document ''https://blog.l3s.me'' [post_A]) ! 0)
       = Some 1735689600000
   \<and> link (items (feed_document ''https://blog.l3s.me'' [post_A]) ! 0) = ''/blog/a/''
   \<and> categories (items (feed_document ''https://blog.l3s.me'' [post_A]) ! 0) = [''Rust'']"
proof -
  have run: "GET \<lparr> blog = [post_A] \<rparr> \<lparr> site = None \<rparr>
               = Inr (feed_document ''https://blog.l3s.me'' [post_A])"
    by (simp add: handler_defs example_defs)
  have sp: "sortedPosts \<lparr> blog = [post_A] \<rparr> = Inr [post_A]"
    by (simp add: handler_defs example_defs)
  from GET_items_projection [OF run] sp
  have "item_title (items (feed_document ''https://blog.l3s.me'' [post_A]) ! 0)
          = title (data ([post_A] ! 0))
        \<and> item_description (items (feed_document ''https://blog.l3s.me'' [post_A]) ! 0)
          = description (data ([post_A] ! 0))
        \<and> item_pubDate (items (feed_document ''https://blog.l3s.me'' [post_A]) ! 0)
          = pubDate (data ([post_A] ! 0))
        \<and> link (items (feed_document ''https://blog.l3s.me'' [post_A]) ! 0)
          = ''/blog/'' @ slug ([post_A] ! 0) @ ''/''
        \<and> categories (items (feed_document ''https://blog.l3s.me'' [post_A]) ! 0)
          = tags (data ([post_A] ! 0))"
    by auto
  with run sp show ?thesis
    by (simp add: post_A_def)
qed

subsection \<open>C8: no post to publish\<close>

text \<open>
  C8: where every post of the store is a draft (or the store is empty) the
  handler does not fail: it returns the document with the fixed title,
  description and language, a site that is not empty, and no item.
\<close>

theorem GET_no_posts:
  assumes "filter (\<lambda>p. draft (data p) \<noteq> Some True) (blog s) = []"
  shows "GET s c =
           Inr \<lparr> feed_title = ''Lucas William Bateson - Blog'',
                 feed_description =
                   ''Personal blog and project log - thoughts on development, technology, and building things.'',
                 feed_site = site_or_default (site c),
                 items = [],
                 customData = ''<language>en-us</language>'' \<rparr>
         \<and> site_or_default (site c) \<noteq> []"
proof -
  have keep: "(\<lambda>p. draft (data p) \<noteq> Some True) = not_draft"
    by (simp add: not_draft_def fun_eq_iff)
  from assms have "sortedPosts s = Inr []"
    unfolding keep by (simp add: sortedPosts_def getCollection_def)
  then have "GET s c =
           Inr \<lparr> feed_title = ''Lucas William Bateson - Blog'',
                 feed_description =
                   ''Personal blog and project log - thoughts on development, technology, and building things.'',
                 feed_site = site_or_default (site c),
                 items = [],
                 customData = ''<language>en-us</language>'' \<rparr>"
    by (simp add: GET_def)
  moreover have "site_or_default (site c) \<noteq> []"
    by (simp add: site_or_default_def split: option.splits)
  ultimately show ?thesis by simp
qed

theorem GET_no_posts_witness:
  "GET \<lparr> blog = [post_C] \<rparr> \<lparr> site = Some ''https://example.org/'' \<rparr> =
     Inr \<lparr> feed_title = ''Lucas William Bateson - Blog'',
           feed_description =
             ''Personal blog and project log - thoughts on development, technology, and building things.'',
           feed_site = ''https://example.org/'',
           items = [],
           customData = ''<language>en-us</language>'' \<rparr>"
proof -
  have "filter (\<lambda>p. draft (data p) \<noteq> Some True) (blog \<lparr> blog = [post_C] \<rparr>) = []"
    by (simp add: post_C_def)
  from GET_no_posts [OF this, of "\<lparr> site = Some ''https://example.org/'' \<rparr>"]
  show ?thesis
    by (simp add: site_or_default_def)
qed

subsection \<open>C9: the metadata of the feed\<close>

text \<open>
  C9: every document the handler returns carries the same title and the same
  description, and the language \<^verbatim>\<open>en-us\<close>, which the handler passes as the
  custom element \<^verbatim>\<open><language>en-us</language>\<close>; none of them depends on
  the posts.
\<close>

theorem GET_feed_metadata:
  assumes "GET s c = Inr d"
  shows "feed_title d = ''Lucas William Bateson - Blog''
         \<and> feed_description d =
             ''Personal blog and project log - thoughts on development, technology, and building things.''
         \<and> customData d = ''<language>en-us</language>''"
proof -
  from assms obtain ps where "d = feed_document (site_or_default (site c)) ps"
    using GET_InrD by blast
  then show ?thesis
    by (simp add: feed_document_def)
qed

theorem GET_feed_metadata_witness:
  "GET example_store \<lparr> site = None \<rparr>
     = Inr (feed_document ''https://blog.l3s.me'' [post_B, post_A, post_Y])
   \<and> feed_title (feed_document ''https://blog.l3s.me'' [post_B, post_A, post_Y])
       = ''Lucas William Bateson - Blog''
   \<and> feed_description (feed_document ''https://blog.l3s.me'' [post_B, post_A, post_Y])
       = ''Personal blog and project log - thoughts on development, technology, and building things.''
   \<and> customData (feed_document ''https://blog.l3s.me'' [post_B, post_A, post_Y])
       = ''<language>en-us</language>''"
proof -
  have run: "GET example_store \<lparr> site = None \<rparr>
               = Inr (feed_document ''https://blog.l3s.me'' [post_B, post_A, post_Y])"
    by (simp add: handler_defs example_defs)
  from GET_feed_metadata [OF run] run show ?thesis
    by simp
qed

subsection \<open>C10: the number of entries\<close>

text \<open>
  C10: whenever the handler returns, the document has exactly as many items as
  the store has posts whose draft flag is not \<^verbatim>\<open>true\<close>: nothing is cut off,
  merged or dropped.
\<close>

theorem GET_items_count:
  assumes "GET s c = Inr d"
  shows "length (items d) = length (filter (\<lambda>p. draft (data p) \<noteq> Some True) (blog s))"
proof -
  have keep: "(\<lambda>p. draft (data p) \<noteq> Some True) = not_draft"
    by (simp add: not_draft_def fun_eq_iff)
  from assms obtain ps where sp: "sortedPosts s = Inr ps"
    and d: "d = feed_document (site_or_default (site c)) ps"
    using GET_InrD by blast
  from sp have "length ps = length (filter not_draft (blog s))"
    by (simp add: sortedPosts_def getCollection_def sort_cmp_length)
  with d show ?thesis
    unfolding keep by (simp add: feed_document_def)
qed

theorem GET_items_count_witness:
  "GET example_store \<lparr> site = None \<rparr>
     = Inr (feed_document ''https://blog.l3s.me'' [post_B, post_A, post_Y])
   \<and> length (items (feed_document ''https://blog.l3s.me'' [post_B, post_A, post_Y])) = 3
   \<and> length (filter (\<lambda>p. draft (data p) \<noteq> Some True) (blog example_store)) = 3"
proof -
  have run: "GET example_store \<lparr> site = None \<rparr>
               = Inr (feed_document ''https://blog.l3s.me'' [post_B, post_A, post_Y])"
    by (simp add: handler_defs example_defs)
  have "length (items (feed_document ''https://blog.l3s.me'' [post_B, post_A, post_Y])) = 3"
    by (simp add: feed_document_def)
  with GET_items_count [OF run] run show ?thesis
    by simp
qed

end
